theory Spec2Isabelle
  imports
    Complex_Main
    "HOL-Library.Sublist"
    "HOL-Library.Char_ord"
    "HOL-Library.List_Lexorder"
begin

section \<open>Python values\<close>

text \<open>
  The capability maps, the parameter maps of an action and the metadata of a stored fact are
  typed \<^verbatim>\<open>Dict[str, Any]\<close> in \<^verbatim>\<open>common/schemas.py\<close>: their values are whatever the JSON
  decoder produced. \<open>pyval\<close> is that universe. A float is an exact rational, an infinity or
  NaN: the validator only compares numbers, and Python compares an int with a float exactly.
  A dict is an association list; the first entry of a key is the one a lookup finds.
  Strings are lists of 8-bit characters, so the model covers code points below 256.
\<close>

datatype pyfloat = Finite rat | PosInf | NegInf | NaN

datatype pyval =
    PNone
  | PBool bool
  | PInt int
  | PFloat pyfloat
  | PStr string
  | PList "pyval list"
  | PDict "(string \<times> pyval) list"

datatype py_error =
    TypeError | KeyError | AttributeError | ValidationError | OverflowError | StoreError string

text \<open>\<^verbatim>\<open>a <= b\<close> on floats: every comparison with NaN is false.\<close>

fun float_le :: "pyfloat \<Rightarrow> pyfloat \<Rightarrow> bool" where
  "float_le NaN _ = False"
| "float_le _ NaN = False"
| "float_le NegInf _ = True"
| "float_le _ PosInf = True"
| "float_le (Finite a) (Finite b) = (a \<le> b)"
| "float_le _ _ = False"

text \<open>
  \<^verbatim>\<open>isinstance(v, (int, float))\<close> holds exactly where \<open>as_num\<close> is defined: \<^verbatim>\<open>bool\<close> is a
  subclass of \<^verbatim>\<open>int\<close>, with \<^verbatim>\<open>True == 1\<close> and \<^verbatim>\<open>False == 0\<close>.
\<close>

fun as_num :: "pyval \<Rightarrow> pyfloat option" where
  "as_num (PBool b) = Some (Finite (if b then 1 else 0))"
| "as_num (PInt i) = Some (Finite (of_int i))"
| "as_num (PFloat f) = Some f"
| "as_num _ = None"

definition is_numeric :: "pyval \<Rightarrow> bool" where
  "is_numeric v = (as_num v \<noteq> None)"

lemma size_dict_entry:
  "(k, v) \<in> set kvs \<Longrightarrow> size v < Suc (size_list (size_prod (\<lambda>_. 0) size) kvs)"
  by (induction kvs) auto

text \<open>
  \<^verbatim>\<open>x == y\<close>. Numbers compare by value across bool, int and float; NaN equals nothing;
  lists compare element by element; dicts compare as mappings. The two sides of every
  comparison made by the validator come from different objects (the capability file and the
  reasoner's output), so the identity shortcut of \<^verbatim>\<open>in\<close> never applies to a NaN.
\<close>

function py_eq :: "pyval \<Rightarrow> pyval \<Rightarrow> bool" where
  "py_eq PNone y = (y = PNone)"
| "py_eq (PStr a) y = (y = PStr a)"
| "py_eq (PBool b) y =
     (case as_num y of None \<Rightarrow> False | Some g \<Rightarrow> g = Finite (if b then 1 else 0))"
| "py_eq (PInt i) y = (case as_num y of None \<Rightarrow> False | Some g \<Rightarrow> g = Finite (of_int i))"
| "py_eq (PFloat f) y = (case as_num y of None \<Rightarrow> False | Some g \<Rightarrow> f \<noteq> NaN \<and> g = f)"
| "py_eq (PList xs) y =
     (case y of
        PList ys \<Rightarrow> length xs = length ys \<and> (\<forall>(a, b) \<in> set (zip xs ys). py_eq a b)
      | _ \<Rightarrow> False)"
| "py_eq (PDict xs) y =
     (case y of
        PDict ys \<Rightarrow>
          length xs = length ys \<and>
          (\<forall>(k, a) \<in> set xs. case map_of ys k of None \<Rightarrow> False | Some b \<Rightarrow> py_eq a b)
      | _ \<Rightarrow> False)"
  by pat_completeness auto
termination
  apply (relation "measure (\<lambda>(x, y). size x)")
    apply simp
   apply (auto dest!: set_zip_leftD simp: size_list_estimation' less_Suc_eq_le
      dest: size_dict_entry)
  done

text \<open>\<^verbatim>\<open>sub in s\<close> on two strings: \<open>sub\<close> occurs in \<open>s\<close> as a contiguous block.\<close>

fun str_contains :: "string \<Rightarrow> string \<Rightarrow> bool" where
  "str_contains [] sub = (sub = [])"
| "str_contains (c # cs) sub = (prefix sub (c # cs) \<or> str_contains cs sub)"

text \<open>
  \<^verbatim>\<open>name in container\<close> for a string \<open>name\<close>: membership in a list, key membership in a
  dict, substring test in a string; None and numbers are not iterable.
\<close>

fun str_in :: "string \<Rightarrow> pyval \<Rightarrow> py_error + bool" where
  "str_in s (PList ys) = Inr (\<exists>y \<in> set ys. py_eq y (PStr s))"
| "str_in s (PDict kvs) = Inr (s \<in> set (map fst kvs))"
| "str_in s (PStr t) = Inr (str_contains t s)"
| "str_in s _ = Inl TypeError"

text \<open>\<^verbatim>\<open>container[name]\<close> for a string \<open>name\<close>: only a dict can be subscripted by a string.\<close>

fun getitem_str :: "pyval \<Rightarrow> string \<Rightarrow> py_error + pyval" where
  "getitem_str (PDict kvs) k = (case map_of kvs k of None \<Rightarrow> Inl KeyError | Some v \<Rightarrow> Inr v)"
| "getitem_str _ k = Inl TypeError"

text \<open>\<^verbatim>\<open>d.get(key, default)\<close> on a dict.\<close>

definition dict_get :: "(string \<times> 'v) list \<Rightarrow> string \<Rightarrow> 'v \<Rightarrow> 'v" where
  "dict_get d k dflt = (case map_of d k of None \<Rightarrow> dflt | Some v \<Rightarrow> v)"

section \<open>Schemas\<close>

text \<open>\<^verbatim>\<open>common/schemas.py\<close>: \<open>DeviceState\<close> and \<open>ActionCommand\<close>.\<close>

record device_state =
  dev_id :: string
  dev_name :: "string option"
  dev_on :: bool
  dev_params :: "(string \<times> pyval) list"
  capabilities :: "(string \<times> pyval) list option"

record action_command =
  device_id :: string
  command :: string
  params :: "(string \<times> pyval) list"

section \<open>Diagnostics\<close>

text \<open>
  A log record is the level, the format string of the call and its string-valued arguments
  (device ids and parameter names; the other arguments are left out).
\<close>

datatype log_level = DEBUG | INFO | WARNING | ERROR

datatype log_record = Log log_level string "string list"

section \<open>SafetyChecker\<close>

definition SAFE_DEVICE_BLACKLIST :: "string set" where
  "SAFE_DEVICE_BLACKLIST = {''router'', ''refrigerator'', ''security_camera''}"

definition is_digit :: "char \<Rightarrow> bool" where
  "is_digit c = (c \<in> set ''0123456789'')"

text \<open>
  \<^verbatim>\<open>re.match(r"^\d{2}:\d{2}$", s)\<close>. Without the MULTILINE flag \<^verbatim>\<open>$\<close> matches at the end of
  the string and also just before a newline that is the last character, so the pattern
  accepts two digits, a colon and two digits, optionally followed by one newline.
\<close>

fun re_match_hhmm :: "string \<Rightarrow> bool" where
  "re_match_hhmm [a, b, c, d, e] =
     (is_digit a \<and> is_digit b \<and> c = CHR '':'' \<and> is_digit d \<and> is_digit e)"
| "re_match_hhmm [a, b, c, d, e, f] =
     (is_digit a \<and> is_digit b \<and> c = CHR '':'' \<and> is_digit d \<and> is_digit e \<and> f = CHR 0x0A)"
| "re_match_hhmm _ = False"

text \<open>
  \<^verbatim>\<open>re.match(r"^\d{2}:\d{2}$", str(value))\<close>. \<^verbatim>\<open>str\<close> of a string is the string. \<^verbatim>\<open>str\<close> of
  None, a bool, an int or a float has no colon, and \<^verbatim>\<open>str\<close> of a list or a dict starts with a
  bracket, so none of them matches.
\<close>

fun matches_hhmm :: "pyval \<Rightarrow> bool" where
  "matches_hhmm (PStr s) = re_match_hhmm s"
| "matches_hhmm _ = False"

text \<open>
  \<^verbatim>\<open>not (min_v <= param_value <= max_v)\<close> for numbers \<open>lo\<close> and \<open>x\<close>: the chained comparison
  stops at a false first half; otherwise it compares \<open>x\<close> with \<open>max_v\<close>, which raises
  TypeError when \<open>max_v\<close> is not a number.
\<close>

definition outside_range :: "pyfloat \<Rightarrow> pyfloat \<Rightarrow> pyval \<Rightarrow> py_error + bool" where
  "outside_range lo x max_v =
     (if \<not> float_le lo x then Inr True
      else case as_num max_v of
             None \<Rightarrow> Inl TypeError
           | Some hi \<Rightarrow> Inr (\<not> float_le x hi))"

text \<open>
  The body of the loop over \<^verbatim>\<open>action.params.items()\<close> once the parameter is known to be
  declared, with \<open>param_spec\<close> its declared spec. \<open>Inr True\<close>: the loop goes on to the next
  parameter; \<open>Inr False\<close>: the validator returns False; \<open>Inl e\<close>: it raises.
\<close>

fun check_spec ::
  "string \<Rightarrow> string \<Rightarrow> pyval \<Rightarrow> pyval \<Rightarrow> (py_error + bool) \<times> log_record list" where
  "check_spec dev param_name param_value (PList []) =
     (Inr True, [Log DEBUG ''SafetyCheck: Param '%s' has empty spec list.'' [param_name]])"
| "check_spec dev param_name param_value (PList (s0 # rest)) =
     (case as_num s0 of
        Some min_v \<Rightarrow>
          (if length (s0 # rest) = 2 then
             (case as_num param_value of
                None \<Rightarrow>
                  (Inr False,
                   [Log WARNING
                      ''SafetyCheck: Param '%s' value '%s' is not numeric for device %s.''
                      [param_name, dev]])
              | Some x \<Rightarrow>
                  (case outside_range min_v x (hd rest) of
                     Inl e \<Rightarrow> (Inl e, [])
                   | Inr True \<Rightarrow>
                       (Inr False,
                        [Log WARNING
                           ''SafetyCheck: Param %s=%s outside range [%s, %s] for device %s''
                           [param_name, dev]])
                   | Inr False \<Rightarrow> (Inr True, [])))
           else
             (Inr True,
              [Log WARNING
                 ''SafetyCheck: Numeric param spec '%s' has invalid format (not [min, max]).''
                 [param_name]]))
      | None \<Rightarrow>
          (case s0 of
             PStr _ \<Rightarrow>
               (if \<not> (\<exists>e \<in> set (s0 # rest). py_eq e param_value) then
                  (Inr False,
                   [Log WARNING
                      ''SafetyCheck: Param %s=%s not in allowed list %s for device %s''
                      [param_name, dev]])
                else (Inr True, []))
           | _ \<Rightarrow> (Inr True, [])))"
| "check_spec dev param_name param_value (PStr fmt) =
     (if fmt = ''HH:MM'' then
        (if \<not> matches_hhmm param_value then
           (Inr False,
            [Log WARNING
               ''SafetyCheck: Param %s=%s does not match format '%s' for device %s''
               [param_name, fmt, dev]])
         else (Inr True, []))
      else (Inr True, []))"
| "check_spec dev param_name param_value _ =
     (Inr True,
      [Log DEBUG
         ''SafetyCheck: Param '%s' has unhandled spec format '%s' for %s. Skipping.''
         [param_name, dev]])"

text \<open>One iteration of the loop: the membership test, the lookup of the spec, the check.\<close>

definition check_param ::
  "string \<Rightarrow> pyval \<Rightarrow> string \<Rightarrow> pyval \<Rightarrow> (py_error + bool) \<times> log_record list" where
  "check_param dev available_params param_name param_value =
     (case str_in param_name available_params of
        Inl e \<Rightarrow> (Inl e, [])
      | Inr False \<Rightarrow>
          (Inr True,
           [Log DEBUG
              ''SafetyCheck: Param '%s' not in capability spec for %s. Skipping bounds check.''
              [param_name, dev]])
      | Inr True \<Rightarrow>
          (case getitem_str available_params param_name of
             Inl e \<Rightarrow> (Inl e, [])
           | Inr param_spec \<Rightarrow> check_spec dev param_name param_value param_spec))"

text \<open>The loop: it stops at the first parameter that is rejected or raises.\<close>

fun check_params ::
  "string \<Rightarrow> pyval \<Rightarrow> (string \<times> pyval) list \<Rightarrow> (py_error + bool) \<times> log_record list" where
  "check_params dev available_params [] = (Inr True, [])"
| "check_params dev available_params ((param_name, param_value) # items) =
     (case check_param dev available_params param_name param_value of
        (Inr True, l) \<Rightarrow>
          (case check_params dev available_params items of (r, l') \<Rightarrow> (r, l @ l'))
      | (r, l) \<Rightarrow> (r, l))"

text \<open>
  \<^verbatim>\<open>dev_map = {d.id: d for d in devices}\<close>: a later device with the same id replaces an
  earlier one, so the lookup finds the last one.
\<close>

definition dev_map :: "device_state list \<Rightarrow> (string \<times> device_state) list" where
  "dev_map devices = rev (map (\<lambda>d. (dev_id d, d)) devices)"

definition is_action_safe ::
  "action_command \<Rightarrow> device_state list \<Rightarrow> (py_error + bool) \<times> log_record list" where
  "is_action_safe action devices =
     (case map_of (dev_map devices) (device_id action) of
        None \<Rightarrow> (Inr False, [Log WARNING ''SafetyCheck: Unknown device %s'' [device_id action]])
      | Some dev \<Rightarrow>
          if \<exists>bad \<in> SAFE_DEVICE_BLACKLIST. str_contains (device_id action) bad then
            (Inr False,
             [Log WARNING ''SafetyCheck: Action targets blacklisted device %s''
                [device_id action]])
          else
            (case capabilities dev of
               None \<Rightarrow>
                 (Inr False,
                  [Log WARNING ''SafetyCheck: Device %s has no capabilities defined.''
                     [dev_id dev]])
             | Some caps \<Rightarrow>
                 if caps = [] then
                   (Inr False,
                    [Log WARNING ''SafetyCheck: Device %s has no capabilities defined.''
                       [dev_id dev]])
                 else
                   (case str_in (command action) (dict_get caps ''functions'' (PList [])) of
                      Inl e \<Rightarrow> (Inl e, [])
                    | Inr False \<Rightarrow>
                        (Inr False,
                         [Log WARNING
                            ''SafetyCheck: Device %s cannot perform command '%s'. Available: %s''
                            [device_id action, command action]])
                    | Inr True \<Rightarrow>
                        check_params (device_id action)
                          (dict_get caps ''parameters'' (PDict [])) (params action))))"

section \<open>Context and suggestion schemas\<close>

text \<open>
  The remaining models of \<^verbatim>\<open>common/schemas.py\<close>. A \<^verbatim>\<open>Literal[...]\<close> field is a datatype with
  one constructor per admitted string; \<open>*_str\<close> gives the string back. A \<^verbatim>\<open>datetime\<close> is a
  number of microseconds, the resolution of the type.
\<close>

datatype activity = Idle | Walking | PostWorkout

datatype stress = Low | High

datatype air = Good | Moderate | Poor

datatype occupancy_state = Occupied | Vacant

fun activity_str :: "activity \<Rightarrow> string" where
  "activity_str Idle = ''idle''"
| "activity_str Walking = ''walking''"
| "activity_str PostWorkout = ''post_workout''"

fun stress_str :: "stress \<Rightarrow> string" where
  "stress_str Low = ''low''"
| "stress_str High = ''high''"

fun occupancy_str :: "occupancy_state \<Rightarrow> string" where
  "occupancy_str Occupied = ''occupied''"
| "occupancy_str Vacant = ''vacant''"

record biometric_context =
  heart_rate :: "pyfloat option"
  activity_status :: "activity option"
  stress_level :: "stress option"
  calories_today :: "pyfloat option"
  biometric_confidence :: "rat option"

record location_context =
  place :: "string option"
  travel_eta_min :: "int option"
  location_confidence :: "rat option"

record schedule_context =
  next_meeting_time :: "int option"
  free_now :: "bool option"

record environment_context =
  room_temp :: "pyfloat option"
  air_quality :: "air option"
  occupancy :: "occupancy_state option"
  occupancy_confidence :: "rat option"

record context_packet =
  timestamp :: int
  biometric :: "biometric_context option"
  location :: "location_context option"
  schedule :: "schedule_context option"
  environment :: "environment_context option"
  devices :: "device_state list"
  raw :: "(string \<times> pyval) list"

record suggestion =
  should_suggest :: bool
  suggestion_text :: "string option"
  reason :: "string option"
  action :: "action_command option"
  confidence :: "rat option"

text \<open>
  The keyword arguments of \<^verbatim>\<open>SuggestionSchema(**d)\<close>: for each field, \<open>None\<close> when the dict
  has no such key.
\<close>

record suggestion_kwargs =
  kw_should_suggest :: "bool option"
  kw_suggestion_text :: "string option option"
  kw_reason :: "string option option"
  kw_action :: "action_command option option"
  kw_confidence :: "rat option option"

text \<open>
  Validation: \<^verbatim>\<open>should_suggest\<close> is required; a missing optional field takes its default
  (\<^verbatim>\<open>confidence\<close>: 0.5); a confidence that is not None must lie in [0, 1].
\<close>

definition SuggestionSchema :: "suggestion_kwargs \<Rightarrow> py_error + suggestion" where
  "SuggestionSchema kw =
     (case kw_should_suggest kw of
        None \<Rightarrow> Inl ValidationError
      | Some b \<Rightarrow>
          (let c = (case kw_confidence kw of None \<Rightarrow> Some (1 / 2) | Some c \<Rightarrow> c) in
           if (case c of None \<Rightarrow> False | Some x \<Rightarrow> x < 0 \<or> 1 < x) then Inl ValidationError
           else Inr \<lparr>should_suggest = b,
                     suggestion_text = (case kw_suggestion_text kw of None \<Rightarrow> None | Some t \<Rightarrow> t),
                     reason = (case kw_reason kw of None \<Rightarrow> None | Some r \<Rightarrow> r),
                     action = (case kw_action kw of None \<Rightarrow> None | Some a \<Rightarrow> a),
                     confidence = c\<rparr>))"

text \<open>\<^verbatim>\<open>model_dump()\<close>: every field becomes a key.\<close>

definition model_dump :: "suggestion \<Rightarrow> suggestion_kwargs" where
  "model_dump s =
     \<lparr>kw_should_suggest = Some (should_suggest s),
      kw_suggestion_text = Some (suggestion_text s),
      kw_reason = Some (reason s),
      kw_action = Some (action s),
      kw_confidence = Some (confidence s)\<rparr>"

section \<open>LangchainLLMClient\<close>

text \<open>
  The two chains are the external reasoner. A call returns a value or raises: the output
  parser's exception when the text does not fit the schema, any other exception when the call
  itself fails. Both are subclasses of \<^verbatim>\<open>Exception\<close>.
\<close>

datatype chain_failure = OutputParserException | CallFailure

datatype 'a chain_result = Returned 'a | Raised chain_failure

record candidate =
  action_type :: string
  target_devices :: "string list"
  candidate_reason :: string

record llm_client =
  pass1_chain :: "context_packet \<Rightarrow> candidate list \<Rightarrow> string \<Rightarrow> string chain_result"
  pass2_chain :: "string \<Rightarrow> context_packet \<Rightarrow> suggestion chain_result"

definition pass1_reasoning ::
  "llm_client \<Rightarrow> context_packet \<Rightarrow> candidate list \<Rightarrow> string \<Rightarrow> string chain_result" where
  "pass1_reasoning client ctx candidates memory_texts =
     pass1_chain client ctx candidates memory_texts"

text \<open>
  \<^verbatim>\<open>pass2_structured\<close> catches every \<^verbatim>\<open>Exception\<close> of the chain and returns a dict of two keys
  instead. The result type keeps the error summand that its caller handles.
\<close>

definition pass2_structured ::
  "llm_client \<Rightarrow> context_packet \<Rightarrow> string \<Rightarrow> chain_failure + suggestion_kwargs" where
  "pass2_structured client ctx pass1_summary =
     (case pass2_chain client pass1_summary ctx of
        Returned parsed \<Rightarrow> Inr (model_dump parsed)
      | Raised e \<Rightarrow>
          Inr \<lparr>kw_should_suggest = Some False,
               kw_suggestion_text = None,
               kw_reason = Some (Some ''llm_parse_failed''),
               kw_action = None,
               kw_confidence = None\<rparr>)"

section \<open>DecisionGraph\<close>

definition candidates_from_context :: "context_packet \<Rightarrow> candidate list" where
  "candidates_from_context ctx =
     (case environment ctx of
        None \<Rightarrow> []
      | Some env \<Rightarrow>
          if occupancy env = Some Vacant then
            (let on_devices =
               map dev_id
                 (filter (\<lambda>d. dev_on d \<and> str_contains (dev_id d) ''light'') (devices ctx))
             in if on_devices \<noteq> [] then
                  [\<lparr>action_type = ''turn_off_room_lights'',
                    target_devices = on_devices,
                    candidate_reason = ''room appears empty and lights are on''\<rparr>]
                else [])
          else [])
     @
     (if (case biometric ctx of None \<Rightarrow> False | Some b \<Rightarrow> activity_status b = Some PostWorkout)
         \<and> (case location ctx of None \<Rightarrow> False | Some l \<Rightarrow> place l = Some ''home'')
      then
        (let water_devices =
           map dev_id
             (filter (\<lambda>d. str_contains (dev_id d) ''geyser'' \<or>
                           str_contains (dev_id d) ''water_heater'') (devices ctx))
         in if water_devices \<noteq> [] then
              [\<lparr>action_type = ''prepare_bath'',
                target_devices = water_devices,
                candidate_reason = ''user finished workout and is at home''\<rparr>]
            else [])
      else [])
     @
     (if (case biometric ctx of None \<Rightarrow> False | Some b \<Rightarrow> stress_level b = Some High) then
        (let relax_targets =
           map dev_id
             (filter (\<lambda>d. str_contains (dev_id d) ''light'' \<or>
                           str_contains (dev_id d) ''speaker'') (devices ctx))
         in if relax_targets \<noteq> [] then
              [\<lparr>action_type = ''relaxation_routine'',
                target_devices = relax_targets,
                candidate_reason = ''user shows high stress''\<rparr>]
            else [])
      else [])"

section \<open>ProactivityBudget\<close>

text \<open>
  \<open>cooldown_threshold\<close> is the \<^verbatim>\<open>timedelta\<close> in microseconds; \<open>last_suggestion_time\<close> is the
  \<^verbatim>\<open>datetime\<close> of the last allowed suggestion. A \<^verbatim>\<open>timedelta\<close> holds at most 999999999 days in
  either direction and its constructor raises OverflowError beyond.
\<close>

record proactivity_budget =
  cooldown_threshold :: int
  last_suggestion_time :: "int option"

definition timedelta_minutes :: "int \<Rightarrow> py_error + int" where
  "timedelta_minutes m =
     (let us = m * 60000000 in
      if us div 86400000000 < - 999999999 \<or> 999999999 < us div 86400000000
      then Inl OverflowError else Inr us)"

definition ProactivityBudget :: "int \<Rightarrow> py_error + proactivity_budget" where
  "ProactivityBudget cooldown_minutes =
     (case timedelta_minutes cooldown_minutes of
        Inl e \<Rightarrow> Inl e
      | Inr td \<Rightarrow> Inr \<lparr>cooldown_threshold = td, last_suggestion_time = None\<rparr>)"

text \<open>\<open>now\<close> is what \<^verbatim>\<open>datetime.utcnow()\<close> returns in this call.\<close>

definition allow :: "int \<Rightarrow> proactivity_budget \<Rightarrow> bool \<times> proactivity_budget" where
  "allow now b =
     (case last_suggestion_time b of
        None \<Rightarrow> (True, b\<lparr>last_suggestion_time := Some now\<rparr>)
      | Some last_time \<Rightarrow>
          (let time_elapsed = now - last_time in
           if time_elapsed \<ge> cooldown_threshold b
           then (True, b\<lparr>last_suggestion_time := Some now\<rparr>)
           else (False, b)))"

section \<open>The world outside\<close>

text \<open>
  What one call reads from outside the program: the clock, a fresh UUID, and the answers of
  the vector store and of the embedding service, which are not part of this repository.
  \<^item> \<open>similar_exists text\<close>: the outcome of the \<^verbatim>\<open>try\<close> block of \<^verbatim>\<open>_is_duplicate\<close>, that is
    whether the nearest stored document is at least as similar as the threshold (False when
    the query raises, as the handler returns);
  \<^item> \<open>add_error text\<close>: \<open>None\<close> when computing the embedding and \<^verbatim>\<open>collection.add\<close> succeed,
    the exception's message when one of them raises;
  \<^item> \<open>query_documents query n\<close>: the outcome of the similarity query;
  \<^item> \<open>json_dumps v\<close>: \<^verbatim>\<open>json.dumps(v, default=str)\<close>, or \<^verbatim>\<open>str(v)\<close> when that raises.
\<close>

datatype query_outcome = QueryRaised | QueryNoDocuments | QueryDocuments "string list"

record world =
  utcnow :: int
  now_isoformat :: string
  uuid4 :: string
  similar_exists :: "string \<Rightarrow> bool"
  add_error :: "string \<Rightarrow> string option"
  query_documents :: "string \<Rightarrow> nat \<Rightarrow> query_outcome"
  json_dumps :: "pyval \<Rightarrow> string"

section \<open>ChromaStore\<close>

record stored_doc =
  doc_id :: string
  doc_text :: string
  doc_meta :: "(string \<times> pyval) list"

record chroma_store =
  documents :: "stored_doc list"

definition is_duplicate :: "world \<Rightarrow> chroma_store \<Rightarrow> string \<Rightarrow> bool" where
  "is_duplicate w store text =
     (if length (documents store) = 0 then False else similar_exists w text)"

text \<open>The values Chroma accepts as metadata are kept; dicts and lists are serialised.\<close>

fun safe_value :: "world \<Rightarrow> pyval \<Rightarrow> pyval" where
  "safe_value w (PList xs) = PStr (json_dumps w (PList xs))"
| "safe_value w (PDict kvs) = PStr (json_dumps w (PDict kvs))"
| "safe_value w v = v"

text \<open>\<^verbatim>\<open>d[k] = v\<close>: an existing key keeps its place, a new key goes last.\<close>

fun dict_set :: "(string \<times> 'v) list \<Rightarrow> string \<Rightarrow> 'v \<Rightarrow> (string \<times> 'v) list" where
  "dict_set [] k v = [(k, v)]"
| "dict_set ((k', v') # d) k v = (if k' = k then (k, v) # d else (k', v') # dict_set d k v)"

text \<open>
  \<^verbatim>\<open>safe_meta\<close> after the \<^verbatim>\<open>if metadata:\<close> block: still None when \<open>metadata\<close> is None or an
  empty dict.
\<close>

definition safe_meta_of ::
  "world \<Rightarrow> (string \<times> pyval) list option \<Rightarrow> (string \<times> pyval) list option" where
  "safe_meta_of w metadata =
     (case metadata of
        None \<Rightarrow> None
      | Some m \<Rightarrow> if m = [] then None else Some (map (\<lambda>(k, v). (k, safe_value w v)) m))"

text \<open>
  \<^verbatim>\<open>add_document\<close> returns the new id or \<^verbatim>\<open>"DUPLICATE_SKIPPED"\<close>, or raises. The subscript
  assignment \<^verbatim>\<open>safe_meta["timestamp"] = ...\<close> raises TypeError on None. A failure of the
  store is logged by the handler, which then re-raises it.
\<close>

definition add_document ::
  "world \<Rightarrow> chroma_store \<Rightarrow> string \<Rightarrow> (string \<times> pyval) list option \<Rightarrow>
   (py_error + string) \<times> chroma_store \<times> log_record list" where
  "add_document w store text metadata =
     (if is_duplicate w store text then (Inr ''DUPLICATE_SKIPPED'', store, [])
      else
        (case safe_meta_of w metadata of
           None \<Rightarrow> (Inl TypeError, store, [])
         | Some safe_meta \<Rightarrow>
             (let stamped = dict_set safe_meta ''timestamp'' (PStr (now_isoformat w)) in
              case add_error w text of
                None \<Rightarrow>
                  (Inr (uuid4 w),
                   store\<lparr>documents := documents store @
                      [\<lparr>doc_id = uuid4 w, doc_text = text, doc_meta = stamped\<rparr>]\<rparr>,
                   [Log INFO ''Stored doc %s in collection'' [uuid4 w]])
              | Some e \<Rightarrow>
                  (Inl (StoreError e), store,
                   [Log ERROR ''Chroma add_document error: %s'' [e]]))))"

fun join :: "string \<Rightarrow> string list \<Rightarrow> string" where
  "join sep [] = []"
| "join sep [x] = x"
| "join sep (x # y # ys) = x @ sep @ join sep (y # ys)"

definition get_relevant_info :: "world \<Rightarrow> chroma_store \<Rightarrow> string \<Rightarrow> nat \<Rightarrow> string" where
  "get_relevant_info w store query n_results =
     (if length (documents store) = 0 then ''No information in memory.''
      else
        (case query_documents w query n_results of
           QueryRaised \<Rightarrow> ''Error querying memory.''
         | QueryNoDocuments \<Rightarrow> ''No relevant information found in memory.''
         | QueryDocuments docs \<Rightarrow> join [CHR 0x0A] (map (\<lambda>doc. ''- '' @ doc) docs)))"

section \<open>ThinkOrchestrator\<close>

record think_orchestrator =
  client :: llm_client
  memory :: "chroma_store option"
  device_capabilities :: "(string \<times> (string \<times> pyval) list) list"
  budget :: proactivity_budget

definition ThinkOrchestrator ::
  "llm_client \<Rightarrow> chroma_store option \<Rightarrow> (string \<times> (string \<times> pyval) list) list \<Rightarrow> int \<Rightarrow>
   py_error + think_orchestrator" where
  "ThinkOrchestrator llm mem caps cooldown_minutes =
     (case ProactivityBudget cooldown_minutes of
        Inl e \<Rightarrow> Inl e
      | Inr b \<Rightarrow> Inr \<lparr>client = llm, memory = mem, device_capabilities = caps, budget = b\<rparr>)"

definition enrich_context_with_capabilities ::
  "think_orchestrator \<Rightarrow> context_packet \<Rightarrow> context_packet" where
  "enrich_context_with_capabilities orch ctx =
     ctx\<lparr>devices :=
       map (\<lambda>dev_state.
              dev_state\<lparr>capabilities :=
                Some (case map_of (device_capabilities orch) (dev_id dev_state) of
                        Some caps \<Rightarrow> caps
                      | None \<Rightarrow> [])\<rparr>)
           (devices ctx)\<rparr>"

definition get_memory_query :: "context_packet \<Rightarrow> string" where
  "get_memory_query ctx =
     (let mem_query_parts =
        (case biometric ctx of
           Some b \<Rightarrow>
             (case activity_status b of
                Some a \<Rightarrow> [''user activity '' @ activity_str a] | None \<Rightarrow> [])
         | None \<Rightarrow> [])
        @
        (case biometric ctx of
           Some b \<Rightarrow>
             (case stress_level b of Some l \<Rightarrow> [''user stress '' @ stress_str l] | None \<Rightarrow> [])
         | None \<Rightarrow> [])
        @
        (case environment ctx of
           Some env \<Rightarrow>
             (case occupancy env of Some oc \<Rightarrow> [''room '' @ occupancy_str oc] | None \<Rightarrow> [])
         | None \<Rightarrow> [])
        @
        (case location ctx of
           Some l \<Rightarrow>
             (case place l of
                Some pl \<Rightarrow> if pl \<noteq> [] then [''user at '' @ pl] else []
              | None \<Rightarrow> [])
         | None \<Rightarrow> [])
      in if mem_query_parts = [] then ''general user preferences''
         else join '', '' mem_query_parts)"

text \<open>
  The two handlers of step 4 build
  \<^verbatim>\<open>SuggestionSchema(should_suggest=False, reason=r, confidence=0.0)\<close>.
\<close>

definition hard_deny :: "string \<Rightarrow> suggestion" where
  "hard_deny r =
     \<lparr>should_suggest = False, suggestion_text = None, reason = Some r, action = None,
      confidence = Some 0\<rparr>"

text \<open>
  Steps 0 to 4 of \<^verbatim>\<open>process_context\<close>: enrichment, candidates, memory, pass 1 with its
  fallback, pass 2 and the construction of the suggestion. The result is the enriched
  context and the suggestion; the only exception that escapes is the AttributeError of a
  missing memory.
\<close>

definition proposed_suggestion ::
  "think_orchestrator \<Rightarrow> world \<Rightarrow> context_packet \<Rightarrow> py_error + context_packet \<times> suggestion"
  where
  "proposed_suggestion orch w ctx0 =
     (let ctx = enrich_context_with_capabilities orch ctx0;
          candidates = candidates_from_context ctx;
          mem_query = get_memory_query ctx
      in case memory orch of
           None \<Rightarrow> Inl AttributeError
         | Some mem \<Rightarrow>
             (let memory_texts = get_relevant_info w mem mem_query 3;
                  pass1_output =
                    (case pass1_reasoning (client orch) ctx candidates memory_texts of
                       Returned out \<Rightarrow> out
                     | Raised e \<Rightarrow> ''LLM pass1 error'')
              in Inr (ctx,
                   (case pass2_structured (client orch) ctx pass1_output of
                      Inl e \<Rightarrow> hard_deny ''llm_error''
                    | Inr pass2_out \<Rightarrow>
                        (case SuggestionSchema pass2_out of
                           Inl e \<Rightarrow> hard_deny ''validation_failed''
                         | Inr s \<Rightarrow> s)))))"

text \<open>Step 5: the safety check, when the suggestion carries an action.\<close>

definition safety_checked :: "context_packet \<Rightarrow> suggestion \<Rightarrow> py_error + suggestion" where
  "safety_checked ctx s =
     (case action s of
        None \<Rightarrow> Inr s
      | Some a \<Rightarrow>
          (case fst (is_action_safe a (devices ctx)) of
             Inl e \<Rightarrow> Inl e
           | Inr True \<Rightarrow> Inr s
           | Inr False \<Rightarrow>
               Inr (s\<lparr>should_suggest := False, reason := Some ''Action failed safety check.''\<rparr>)))"

text \<open>
  Step 6: \<^verbatim>\<open>suggestion.should_suggest and not self.proactivity_budget.allow()\<close>. The \<^verbatim>\<open>and\<close>
  evaluates \<^verbatim>\<open>allow()\<close> only when the flag is true.
\<close>

definition budget_checked ::
  "think_orchestrator \<Rightarrow> world \<Rightarrow> suggestion \<Rightarrow> suggestion \<times> think_orchestrator" where
  "budget_checked orch w s =
     (if should_suggest s then
        (case allow (utcnow w) (budget orch) of
           (allowed, b) \<Rightarrow>
             (if \<not> allowed
              then s\<lparr>should_suggest := False, reason := Some ''Proactivity budget exhausted.''\<rparr>
              else s,
              orch\<lparr>budget := b\<rparr>))
      else (s, orch))"

definition process_context ::
  "think_orchestrator \<Rightarrow> world \<Rightarrow> context_packet \<Rightarrow>
   (py_error + suggestion) \<times> think_orchestrator" where
  "process_context orch w ctx0 =
     (case proposed_suggestion orch w ctx0 of
        Inl e \<Rightarrow> (Inl e, orch)
      | Inr (ctx, s) \<Rightarrow>
          (case safety_checked ctx s of
             Inl e \<Rightarrow> (Inl e, orch)
           | Inr s' \<Rightarrow> (case budget_checked orch w s' of (s'', orch') \<Rightarrow> (Inr s'', orch'))))"

definition str_opt :: "string option \<Rightarrow> string" where
  "str_opt t = (case t of None \<Rightarrow> ''None'' | Some x \<Rightarrow> x)"

definition action_dump :: "action_command \<Rightarrow> pyval" where
  "action_dump a =
     PDict [(''device_id'', PStr (device_id a)), (''command'', PStr (command a)),
            (''params'', PDict (params a))]"

text \<open>
  \<^verbatim>\<open>store_user_confirmation\<close> calls \<^verbatim>\<open>add_document\<close> outside any \<^verbatim>\<open>try\<close>: what it raises
  reaches the caller. The returned id is dropped.
\<close>

definition store_user_confirmation ::
  "think_orchestrator \<Rightarrow> world \<Rightarrow> suggestion \<Rightarrow> context_packet \<Rightarrow> bool \<Rightarrow>
   (py_error + unit) \<times> think_orchestrator \<times> log_record list" where
  "store_user_confirmation orch w s ctx accepted =
     (case memory orch of
        None \<Rightarrow> (Inr (), orch, [])
      | Some mem \<Rightarrow>
          (let activity_name =
             (case biometric ctx of
                None \<Rightarrow> ''unknown''
              | Some b \<Rightarrow>
                  (case activity_status b of None \<Rightarrow> ''unknown'' | Some a \<Rightarrow> activity_str a));
               store = (\<lambda>fact_text meta.
                 case add_document w mem fact_text (Some meta) of
                   (Inl e, mem', l) \<Rightarrow> (Inl e, orch\<lparr>memory := Some mem'\<rparr>, l)
                 | (Inr i, mem', l) \<Rightarrow> (Inr (), orch\<lparr>memory := Some mem'\<rparr>, l))
           in if accepted then
                (case action s of
                   None \<Rightarrow> (Inr (), orch, [])
                 | Some a \<Rightarrow>
                     store
                       (''User ACCEPTED this action: '' @ str_opt (suggestion_text s) @
                        '' (Action: '' @ command a @ '' '' @ device_id a @ '')'')
                       [(''type'', PStr ''accepted_action''),
                        (''accepted'', PBool True),
                        (''action'', action_dump a),
                        (''context_activity'', PStr activity_name)])
              else
                store
                  (''User REJECTED this suggestion: '' @ str_opt (suggestion_text s))
                  [(''type'', PStr ''rejected_action''),
                   (''accepted'', PBool False),
                   (''reason'', (case reason s of None \<Rightarrow> PNone | Some r \<Rightarrow> PStr r)),
                   (''context_activity'', PStr activity_name)]))"

section \<open>The validator's conditions, stated declaratively\<close>
text \<open>
  The conditions under which an action is accepted, written as one predicate over the action
  and the device list rather than as the validator's sequence of early returns.
  \<open>safe_by_spec\<close> takes the per-parameter condition as an argument: the device is in the
  list, its id holds no protected substring, its capability dict is non-empty, the command
  is in the \<^verbatim>\<open>functions\<close> list, and every supplied parameter with a declared spec satisfies
  the condition.
\<close>

definition blacklisted :: "string \<Rightarrow> bool" where
  "blacklisted dev = (\<exists>bad \<in> SAFE_DEVICE_BLACKLIST. str_contains dev bad)"

definition command_supported :: "string \<Rightarrow> (string \<times> pyval) list \<Rightarrow> bool" where
  "command_supported cmd caps =
     (case map_of caps ''functions'' of Some (PList fs) \<Rightarrow> PStr cmd \<in> set fs | _ \<Rightarrow> False)"

definition declared_spec :: "(string \<times> pyval) list \<Rightarrow> string \<Rightarrow> pyval option" where
  "declared_spec caps p =
     (case map_of caps ''parameters'' of Some (PDict specs) \<Rightarrow> map_of specs p | _ \<Rightarrow> None)"

definition safe_by_spec ::
  "(pyval \<Rightarrow> pyval \<Rightarrow> bool) \<Rightarrow> action_command \<Rightarrow> device_state list \<Rightarrow> bool" where
  "safe_by_spec satisfies act devs =
     (\<exists>d \<in> set devs.
        dev_id d = device_id act \<and>
        \<not> blacklisted (device_id act) \<and>
        (case capabilities d of
           None \<Rightarrow> False
         | Some caps \<Rightarrow>
             caps \<noteq> [] \<and>
             command_supported (command act) caps \<and>
             (\<forall>(p, v) \<in> set (params act).
                case declared_spec caps p of None \<Rightarrow> True | Some spec \<Rightarrow> satisfies v spec)))"

text \<open>
  The three constraints named by the specification: a numeric value within the inclusive
  range \<^verbatim>\<open>[min, max]\<close>, exact membership in an enumeration of strings, and two digits, a
  colon and two digits for the format token \<^verbatim>\<open>"HH:MM"\<close>. \<open>satisfies_declared\<close> asks every
  declared parameter to satisfy one of the three.
\<close>

fun within_range :: "pyval \<Rightarrow> pyval \<Rightarrow> bool" where
  "within_range v (PList [min_v, max_v]) =
     (case (as_num min_v, as_num v, as_num max_v) of
        (Some lo, Some x, Some hi) \<Rightarrow> float_le lo x \<and> float_le x hi
      | _ \<Rightarrow> False)"
| "within_range v _ = False"

fun is_str :: "pyval \<Rightarrow> bool" where
  "is_str (PStr _) = True"
| "is_str _ = False"

fun in_enumeration :: "pyval \<Rightarrow> pyval \<Rightarrow> bool" where
  "in_enumeration v (PList es) = (es \<noteq> [] \<and> list_all is_str es \<and> v \<in> set es)"
| "in_enumeration v _ = False"

fun two_digit_colon_two_digit :: "string \<Rightarrow> bool" where
  "two_digit_colon_two_digit [a, b, c, d, e] =
     (is_digit a \<and> is_digit b \<and> c = CHR '':'' \<and> is_digit d \<and> is_digit e)"
| "two_digit_colon_two_digit _ = False"

fun is_hhmm :: "pyval \<Rightarrow> bool" where
  "is_hhmm (PStr s) = two_digit_colon_two_digit s"
| "is_hhmm _ = False"

definition satisfies_declared :: "pyval \<Rightarrow> pyval \<Rightarrow> bool" where
  "satisfies_declared v spec =
     (within_range v spec \<or> in_enumeration v spec \<or> (spec = PStr ''HH:MM'' \<and> is_hhmm v))"

text \<open>
  The constraint by the shape of the spec, as the validator dispatches on it: a list whose
  first element is a number is a range when it has two elements and is not checked otherwise;
  a list whose first element is a string is an enumeration (membership by \<^verbatim>\<open>==\<close>); the string
  \<^verbatim>\<open>"HH:MM"\<close> is the time format; every other shape (an empty list, another string, a dict,
  a number, None) is not checked.
\<close>

fun satisfies_checked :: "pyval \<Rightarrow> pyval \<Rightarrow> bool" where
  "satisfies_checked v (PList (s0 # rest)) =
     (if is_numeric s0 then (length rest = 1 \<longrightarrow> within_range v (PList (s0 # rest)))
      else if is_str s0 then (\<exists>e \<in> set (s0 # rest). py_eq e v)
      else True)"
| "satisfies_checked v (PStr fmt) = (fmt = ''HH:MM'' \<longrightarrow> is_hhmm v)"
| "satisfies_checked v _ = True"

text \<open>
  A capability dict as the service builds it from the configuration file: \<^verbatim>\<open>functions\<close>,
  when present, is a list and \<^verbatim>\<open>parameters\<close>, when present, is a dict.
\<close>

definition caps_wellformed :: "device_state \<Rightarrow> bool" where
  "caps_wellformed d =
     (case capabilities d of
        None \<Rightarrow> True
      | Some caps \<Rightarrow>
          (case map_of caps ''functions'' of None \<Rightarrow> True | Some (PList _) \<Rightarrow> True | _ \<Rightarrow> False) \<and>
          (case map_of caps ''parameters'' of None \<Rightarrow> True | Some (PDict _) \<Rightarrow> True | _ \<Rightarrow> False))"

fun ends_with_newline :: "pyval \<Rightarrow> bool" where
  "ends_with_newline (PStr s) = (s \<noteq> [] \<and> last s = CHR 0x0A)"
| "ends_with_newline _ = False"

section \<open>The rule engine's output, stated declaratively\<close>

definition turn_off_candidates :: "context_packet \<Rightarrow> candidate list" where
  "turn_off_candidates ctx =
     filter (\<lambda>c. action_type c = ''turn_off_room_lights'') (candidates_from_context ctx)"

definition lit_light_ids :: "context_packet \<Rightarrow> string set" where
  "lit_light_ids ctx =
     {dev_id d |d. d \<in> set (devices ctx) \<and> dev_on d \<and> str_contains (dev_id d) ''light''}"

section \<open>Example data\<close>
text \<open>
  The devices and capabilities of \<^verbatim>\<open>demo_once\<close>, and a few more inputs on which the theorems
  below are instantiated.
\<close>

definition smart_ac_1 :: device_state where
  "smart_ac_1 =
     \<lparr>dev_id = ''smart_ac_1'', dev_name = Some ''AC'', dev_on = False, dev_params = [],
      capabilities = Some
        [(''functions'',
            PList [PStr ''set_mode'', PStr ''set_temperature'', PStr ''eco_mode'', PStr ''schedule'']),
         (''parameters'',
            PDict [(''mode'', PList [PStr ''cool'', PStr ''heat'', PStr ''dry'', PStr ''fan'']),
                   (''temperature'', PList [PInt 16, PInt 30]),
                   (''schedule_time'', PStr ''HH:MM'')])]\<rparr>"

definition smart_light_1 :: device_state where
  "smart_light_1 =
     \<lparr>dev_id = ''smart_light_1'', dev_name = Some ''Living Light'', dev_on = True,
      dev_params = [(''brightness'', PInt 80)],
      capabilities = Some
        [(''functions'',
            PList [PStr ''on'', PStr ''off'', PStr ''set_brightness'', PStr ''set_color_temp'']),
         (''parameters'',
            PDict [(''brightness'', PList [PInt 0, PInt 100]),
                   (''color_temperature'', PList [PInt 2700, PInt 6500])])]\<rparr>"

definition stepped_light :: device_state where
  "stepped_light =
     \<lparr>dev_id = ''smart_light_2'', dev_name = None, dev_on = True, dev_params = [],
      capabilities = Some
        [(''functions'', PList [PStr ''on'', PStr ''off'', PStr ''set_brightness'']),
         (''parameters'', PDict [(''brightness'', PList [PInt 0, PInt 50, PInt 100])])]\<rparr>"

definition schedule_ac :: action_command where
  "schedule_ac =
     \<lparr>device_id = ''smart_ac_1'', command = ''schedule'',
      params = [(''schedule_time'', PStr ''07:30''), (''temperature'', PInt 22),
                (''mode'', PStr ''cool''), (''note'', PNone)]\<rparr>"

definition overdrive_light :: action_command where
  "overdrive_light =
     \<lparr>device_id = ''smart_light_2'', command = ''set_brightness'',
      params = [(''brightness'', PInt 1000)]\<rparr>"

definition overdrive_light_more :: action_command where
  "overdrive_light_more =
     \<lparr>device_id = ''smart_light_2'', command = ''set_brightness'',
      params = [(''transition'', PInt 2)]\<rparr>"

definition camera :: device_state where
  "camera =
     \<lparr>dev_id = ''porch_security_camera'', dev_name = None, dev_on = True, dev_params = [],
      capabilities = Some
        [(''functions'', PList [PStr ''on'', PStr ''off'']), (''parameters'', PDict [])]\<rparr>"

definition camera_off :: action_command where
  "camera_off = \<lparr>device_id = ''porch_security_camera'', command = ''off'', params = []\<rparr>"

definition bare_device :: "string \<Rightarrow> bool \<Rightarrow> device_state" where
  "bare_device i on_flag =
     \<lparr>dev_id = i, dev_name = None, dev_on = on_flag, dev_params = [], capabilities = Some []\<rparr>"

definition vacant_room :: "device_state list \<Rightarrow> context_packet" where
  "vacant_room ds =
     \<lparr>timestamp = 0, biometric = None, location = None, schedule = None,
      environment = Some \<lparr>room_temp = None, air_quality = None, occupancy = Some Vacant,
                          occupancy_confidence = Some 1\<rparr>,
      devices = ds, raw = []\<rparr>"

definition two_lights :: context_packet where
  "two_lights =
     vacant_room [bare_device ''light_b'' True, bare_device ''fan_1'' True,
                  bare_device ''light_a'' True, bare_device ''light_c'' False]"

definition ten_minutes :: proactivity_budget where
  "ten_minutes = \<lparr>cooldown_threshold = 600000000, last_suggestion_time = None\<rparr>"

definition used_budget :: proactivity_budget where
  "used_budget = ten_minutes\<lparr>last_suggestion_time := Some 1000000\<rparr>"

definition quiet_world :: world where
  "quiet_world =
     \<lparr>utcnow = 5000000, now_isoformat = ''2025-01-01T00:00:05'',
      uuid4 = ''3f2b8c1e-0000-4000-8000-000000000001'',
      similar_exists = (\<lambda>text. False), add_error = (\<lambda>text. None),
      query_documents = (\<lambda>query n. QueryNoDocuments), json_dumps = (\<lambda>v. ''{}'')\<rparr>"

definition disk_full_world :: world where
  "disk_full_world = quiet_world\<lparr>add_error := (\<lambda>text. Some ''disk full'')\<rparr>"

definition demo_capabilities :: "(string \<times> (string \<times> pyval) list) list" where
  "demo_capabilities =
     [(''smart_light_1'',
        [(''functions'',
            PList [PStr ''on'', PStr ''off'', PStr ''set_brightness'', PStr ''set_color_temp'']),
         (''parameters'',
            PDict [(''brightness'', PList [PInt 0, PInt 100]),
                   (''color_temperature'', PList [PInt 2700, PInt 6500])])]),
      (''smart_ac_1'',
        [(''functions'',
            PList [PStr ''set_mode'', PStr ''set_temperature'', PStr ''eco_mode'',
                   PStr ''schedule'']),
         (''parameters'',
            PDict [(''mode'', PList [PStr ''cool'', PStr ''heat'', PStr ''dry'', PStr ''fan'']),
                   (''temperature'', PList [PInt 16, PInt 30]),
                   (''schedule_time'', PStr ''HH:MM'')])])]"

definition demo_context :: context_packet where
  "demo_context =
     vacant_room [bare_device ''smart_light_1'' True, bare_device ''smart_ac_1'' False]"

definition hot_ac :: action_command where
  "hot_ac =
     \<lparr>device_id = ''smart_ac_1'', command = ''set_temperature'',
      params = [(''temperature'', PInt 90)]\<rparr>"

definition hot_ac_suggestion :: suggestion where
  "hot_ac_suggestion =
     \<lparr>should_suggest = True, suggestion_text = Some ''Warm the room up'',
      reason = Some ''room is cold'', action = Some hot_ac, confidence = Some (9 / 10)\<rparr>"

definition hot_ac_denied :: suggestion where
  "hot_ac_denied =
     hot_ac_suggestion\<lparr>should_suggest := False, reason := Some ''Action failed safety check.''\<rparr>"

definition rejected_suggestion :: suggestion where
  "rejected_suggestion =
     \<lparr>should_suggest = True, suggestion_text = Some ''Dim the lights'',
      reason = Some ''room is empty'', action = None, confidence = Some (1 / 2)\<rparr>"

definition hot_ac_client :: llm_client where
  "hot_ac_client =
     \<lparr>pass1_chain = (\<lambda>ctx candidates memory_texts. Returned ''The room is cold.''),
      pass2_chain = (\<lambda>summary ctx. Returned hot_ac_suggestion)\<rparr>"

definition unreachable_client :: llm_client where
  "unreachable_client =
     \<lparr>pass1_chain = (\<lambda>ctx candidates memory_texts. Raised CallFailure),
      pass2_chain = (\<lambda>summary ctx. Raised CallFailure)\<rparr>"

definition demo_orchestrator :: "llm_client \<Rightarrow> think_orchestrator" where
  "demo_orchestrator llm =
     \<lparr>client = llm, memory = Some \<lparr>documents = []\<rparr>,
      device_capabilities = demo_capabilities, budget = ten_minutes\<rparr>"

definition llm_parse_failed :: suggestion where
  "llm_parse_failed =
     \<lparr>should_suggest = False, suggestion_text = None, reason = Some ''llm_parse_failed'',
      action = None, confidence = Some (1 / 2)\<rparr>"

definition schedule_ac_newline :: action_command where
  "schedule_ac_newline =
     \<lparr>device_id = ''smart_ac_1'', command = ''schedule'',
      params = [(''schedule_time'', PStr (''07:30'' @ [CHR 0x0A]))]\<rparr>"

section \<open>Strings, device map and the parameter loop\<close>

lemma str_contains_iff: "str_contains s sub \<longleftrightarrow> (\<exists>pre post. s = pre @ sub @ post)"
proof (induction s)
  case Nil
  then show ?case by auto
next
  case (Cons c cs)
  show ?case
  proof
    assume "str_contains (c # cs) sub"
    then consider "prefix sub (c # cs)" | "str_contains cs sub" by auto
    then show "\<exists>pre post. c # cs = pre @ sub @ post"
    proof cases
      case 1
      then obtain post where "c # cs = sub @ post" by (auto simp: prefix_def)
      then have "c # cs = [] @ sub @ post" by simp
      then show ?thesis by blast
    next
      case 2
      with Cons.IH obtain pre post where "cs = pre @ sub @ post" by blast
      then have "c # cs = (c # pre) @ sub @ post" by simp
      then show ?thesis by blast
    qed
  next
    assume "\<exists>pre post. c # cs = pre @ sub @ post"
    then obtain pre post where eq: "c # cs = pre @ sub @ post" by blast
    show "str_contains (c # cs) sub"
    proof (cases pre)
      case Nil
      with eq have "prefix sub (c # cs)" by (simp add: prefix_def)
      then show ?thesis by simp
    next
      case (Cons a pre')
      with eq have "cs = pre' @ sub @ post" by simp
      with Cons.IH have "str_contains cs sub" by blast
      then show ?thesis by simp
    qed
  qed
qed

lemma dev_map_None: "map_of (dev_map devs) k = None \<longleftrightarrow> k \<notin> dev_id ` set devs"
  by (simp add: dev_map_def map_of_eq_None_iff image_image)

lemma dev_map_SomeD:
  "map_of (dev_map devs) k = Some d \<Longrightarrow> d \<in> set devs \<and> dev_id d = k"
  by (auto simp: dev_map_def dest!: map_of_SomeD)

lemma dev_map_Some_distinct:
  assumes "distinct (map dev_id devs)"
  shows "map_of (dev_map devs) k = Some d \<longleftrightarrow> d \<in> set devs \<and> dev_id d = k"
proof -
  have dist: "distinct (map fst (dev_map devs))"
    using assms by (simp add: dev_map_def rev_map[symmetric] comp_def distinct_rev)
  have "map_of (dev_map devs) k = Some d \<longleftrightarrow> (k, d) \<in> set (dev_map devs)"
    using dist by (metis map_of_is_SomeI map_of_SomeD)
  also have "\<dots> \<longleftrightarrow> d \<in> set devs \<and> dev_id d = k"
    by (auto simp: dev_map_def)
  finally show ?thesis .
qed

lemma check_params_ok_iff:
  "fst (check_params dev avail items) = Inr True \<longleftrightarrow>
   (\<forall>(p, v) \<in> set items. fst (check_param dev avail p v) = Inr True)"
proof (induction items)
  case Nil
  then show ?case by simp
next
  case (Cons item items)
  obtain p v where item: "item = (p, v)" by (cases item)
  obtain r l where cp: "check_param dev avail p v = (r, l)" by (cases "check_param dev avail p v")
  obtain r' l' where cps: "check_params dev avail items = (r', l')"
    by (cases "check_params dev avail items")
  show ?case
  proof (cases "r = Inr True")
    case True
    with Cons.IH item cp cps show ?thesis by simp
  next
    case False
    then have "fst (check_params dev avail ((p, v) # items)) = r"
      using cp by (cases r) (auto split: bool.splits)
    with False item cp show ?thesis by simp
  qed
qed

lemma check_params_skip:
  assumes "fst (check_param dev avail p v) = Inr True"
  shows "fst (check_params dev avail (before @ (p, v) # after)) =
         fst (check_params dev avail (before @ after))"
proof (induction before)
  case Nil
  obtain l where "check_param dev avail p v = (Inr True, l)"
    using assms by (cases "check_param dev avail p v") auto
  then show ?case by (simp split: prod.splits)
next
  case (Cons item before)
  obtain q w where item: "item = (q, w)" by (cases item)
  obtain r l where cp: "check_param dev avail q w = (r, l)" by (cases "check_param dev avail q w")
  show ?case
  proof (cases "r = Inr True")
    case True
    with Cons.IH item cp show ?thesis by (auto split: prod.splits)
  next
    case False
    with item cp show ?thesis by (cases r) (auto split: bool.splits)
  qed
qed

lemma py_eq_PStr: "py_eq e (PStr s) \<longleftrightarrow> e = PStr s"
  by (cases e) (auto split: pyval.splits)

lemma re_match_hhmm_no_newline:
  "\<not> (s \<noteq> [] \<and> last s = CHR 0x0A) \<Longrightarrow> re_match_hhmm s = two_digit_colon_two_digit s"
  by (induction s rule: re_match_hhmm.induct) auto

lemma two_digit_re_match: "two_digit_colon_two_digit s \<Longrightarrow> re_match_hhmm s"
  by (induction s rule: two_digit_colon_two_digit.induct) auto

lemma matches_hhmm_no_newline: "\<not> ends_with_newline v \<Longrightarrow> matches_hhmm v = is_hhmm v"
  by (cases v) (auto simp: re_match_hhmm_no_newline)

lemma check_spec_ok_iff:
  assumes "\<not> ends_with_newline v"
  shows "fst (check_spec dev p v spec) = Inr True \<longleftrightarrow> satisfies_checked v spec"
proof (cases spec)
  case (PList es)
  show ?thesis
  proof (cases es)
    case Nil
    with PList show ?thesis by simp
  next
    case (Cons s0 rest)
    show ?thesis
    proof (cases "as_num s0")
      case None
      then have "\<not> is_numeric s0" by (simp add: is_numeric_def)
      with None PList Cons show ?thesis
        by (cases s0) (auto simp: is_numeric_def)
    next
      case (Some lo)
      then have num: "is_numeric s0" by (simp add: is_numeric_def)
      show ?thesis
      proof (cases "length rest = 1")
        case False
        with Some num PList Cons show ?thesis by simp
      next
        case True
        then obtain max_v where rest: "rest = [max_v]" by (cases rest) auto
        show ?thesis
          using Some num PList Cons rest
          by (auto simp: outside_range_def split: option.splits sum.splits bool.splits if_splits)
      qed
    qed
  qed
next
  case (PStr fmt)
  with assms show ?thesis by (simp add: matches_hhmm_no_newline)
qed simp_all

lemma str_in_functions_list:
  "str_in cmd (PList fs) = Inr (PStr cmd \<in> set fs)"
  by (auto simp: py_eq_PStr)

lemma check_spec_verdict_indep:
  "fst (check_spec dev p v spec) = fst (check_spec dev' p' v spec)"
proof (cases spec)
  case (PList es)
  show ?thesis
  proof (cases es)
    case Nil
    with PList show ?thesis by simp
  next
    case (Cons s0 rest)
    show ?thesis
    proof (cases "as_num s0")
      case None
      with PList Cons show ?thesis by (cases s0) simp_all
    next
      case (Some lo)
      with PList Cons show ?thesis
        by (simp split: option.splits sum.splits bool.splits)
    qed
  qed
next
  case (PStr fmt)
  then show ?thesis by simp
qed simp_all

lemma check_param_dict_verdict:
  "fst (check_param dev (PDict specs) p v) = Inr True \<longleftrightarrow>
   (case map_of specs p of
      None \<Rightarrow> True
    | Some spec \<Rightarrow> fst (check_spec [] [] v spec) = Inr True)"
proof (cases "map_of specs p")
  case None
  then have "p \<notin> set (map fst specs)" by (simp add: map_of_eq_None_iff)
  with None show ?thesis by (simp add: check_param_def)
next
  case (Some spec)
  then have "p \<in> set (map fst specs)" by (metis map_of_eq_None_iff option.distinct(1) set_map)
  with Some check_spec_verdict_indep[of dev p v spec "[]" "[]"] show ?thesis
    by (simp add: check_param_def)
qed

lemma accepted_by_caps_verdict:
  assumes wf: "caps_wellformed dev" and caps: "capabilities dev = Some caps"
  shows "(case str_in cmd (dict_get caps ''functions'' (PList [])) of
            Inl e \<Rightarrow> Inl e
          | Inr False \<Rightarrow> Inr False
          | Inr True \<Rightarrow> fst (check_params d (dict_get caps ''parameters'' (PDict [])) items))
         = Inr True \<longleftrightarrow>
         command_supported cmd caps \<and>
         (\<forall>(p, v) \<in> set items.
            case declared_spec caps p of
              None \<Rightarrow> True
            | Some spec \<Rightarrow> fst (check_spec [] [] v spec) = Inr True)"
proof -
  obtain fs where fs: "dict_get caps ''functions'' (PList []) = PList fs"
    and sup: "command_supported cmd caps \<longleftrightarrow> PStr cmd \<in> set fs"
    using wf caps
    by (auto simp: caps_wellformed_def dict_get_def command_supported_def
        split: option.splits pyval.splits)
  obtain specs where specs: "dict_get caps ''parameters'' (PDict []) = PDict specs"
    and decl: "\<And>p. declared_spec caps p = map_of specs p"
    using wf caps
    by (auto simp: caps_wellformed_def dict_get_def declared_spec_def
        split: option.splits pyval.splits)
  have loop: "fst (check_params d (PDict specs) items) = Inr True \<longleftrightarrow>
      (\<forall>(p, v) \<in> set items.
         case map_of specs p of
           None \<Rightarrow> True
         | Some spec \<Rightarrow> fst (check_spec [] [] v spec) = Inr True)"
    unfolding check_params_ok_iff check_param_dict_verdict by simp
  show ?thesis
    unfolding fs specs str_in_functions_list sup decl using loop
    by (cases "PStr cmd \<in> set fs") simp_all
qed

lemma is_action_safe_verdict:
  assumes ids: "distinct (map dev_id devs)"
    and wf: "\<forall>d \<in> set devs. caps_wellformed d"
  shows "fst (is_action_safe act devs) = Inr True \<longleftrightarrow>
         safe_by_spec (\<lambda>v spec. fst (check_spec [] [] v spec) = Inr True) act devs"
    (is "_ \<longleftrightarrow> safe_by_spec ?acc act devs")
proof (cases "map_of (dev_map devs) (device_id act)")
  case None
  then have "device_id act \<notin> dev_id ` set devs" by (simp add: dev_map_None)
  then have "\<not> safe_by_spec ?acc act devs"
    unfolding safe_by_spec_def by (metis imageI)
  with None show ?thesis by (simp add: is_action_safe_def)
next
  case (Some dev)
  then have dev: "dev \<in> set devs" "dev_id dev = device_id act"
    using dev_map_Some_distinct[OF ids] by auto
  have uniq: "\<And>d. d \<in> set devs \<Longrightarrow> dev_id d = device_id act \<Longrightarrow> d = dev"
    using dev_map_Some_distinct[OF ids] Some by (metis option.inject)
  have spec_dev: "safe_by_spec ?acc act devs \<longleftrightarrow>
      \<not> blacklisted (device_id act) \<and>
      (case capabilities dev of
         None \<Rightarrow> False
       | Some caps \<Rightarrow>
           caps \<noteq> [] \<and> command_supported (command act) caps \<and>
           (\<forall>(p, v) \<in> set (params act).
              case declared_spec caps p of None \<Rightarrow> True | Some spec \<Rightarrow> ?acc v spec))"
    unfolding safe_by_spec_def using dev uniq by blast
  show ?thesis
  proof (cases "blacklisted (device_id act)")
    case True
    then show ?thesis
      unfolding spec_dev using Some by (simp add: is_action_safe_def blacklisted_def)
  next
    case nb: False
    show ?thesis
    proof (cases "capabilities dev")
      case None
      then show ?thesis
        unfolding spec_dev using Some nb by (simp add: is_action_safe_def blacklisted_def)
    next
      case (Some caps)
      note caps = this
      show ?thesis
      proof (cases "caps = []")
        case True
        then show ?thesis
          unfolding spec_dev using \<open>map_of (dev_map devs) (device_id act) = Some dev\<close> nb caps
          by (simp add: is_action_safe_def blacklisted_def)
      next
        case False
        have wfd: "caps_wellformed dev" using wf dev by blast
        have code: "fst (is_action_safe act devs) =
            (case str_in (command act) (dict_get caps ''functions'' (PList [])) of
               Inl e \<Rightarrow> Inl e
             | Inr False \<Rightarrow> Inr False
             | Inr True \<Rightarrow>
                 fst (check_params (device_id act)
                        (dict_get caps ''parameters'' (PDict [])) (params act)))"
          using \<open>map_of (dev_map devs) (device_id act) = Some dev\<close> nb caps False
          by (simp add: is_action_safe_def blacklisted_def split: sum.splits bool.splits)
        show ?thesis
          unfolding spec_dev code accepted_by_caps_verdict[OF wfd caps]
          using nb caps False by simp
      qed
    qed
  qed
qed

lemma safe_by_spec_mono:
  assumes imp: "\<And>p v spec. (p, v) \<in> set (params act) \<Longrightarrow> P v spec \<Longrightarrow> Q v spec"
    and "safe_by_spec P act devs"
  shows "safe_by_spec Q act devs"
proof -
  from assms(2) obtain d where d: "d \<in> set devs" "dev_id d = device_id act"
    "\<not> blacklisted (device_id act)"
    and rest: "case capabilities d of
           None \<Rightarrow> False
         | Some caps \<Rightarrow>
             caps \<noteq> [] \<and>
             command_supported (command act) caps \<and>
             (\<forall>(p, v) \<in> set (params act).
                case declared_spec caps p of None \<Rightarrow> True | Some spec \<Rightarrow> P v spec)"
    unfolding safe_by_spec_def by blast
  from rest imp have "case capabilities d of
           None \<Rightarrow> False
         | Some caps \<Rightarrow>
             caps \<noteq> [] \<and>
             command_supported (command act) caps \<and>
             (\<forall>(p, v) \<in> set (params act).
                case declared_spec caps p of None \<Rightarrow> True | Some spec \<Rightarrow> Q v spec)"
    by (fastforce split: option.splits)
  with d show ?thesis unfolding safe_by_spec_def by blast
qed

lemma safe_by_spec_cong:
  assumes "\<And>p v spec. (p, v) \<in> set (params act) \<Longrightarrow> P v spec = Q v spec"
  shows "safe_by_spec P act devs = safe_by_spec Q act devs"
  using assms safe_by_spec_mono[of act P Q devs] safe_by_spec_mono[of act Q P devs] by blast

lemma declared_constraint_accepted:
  assumes "satisfies_declared v spec"
  shows "fst (check_spec [] [] v spec) = Inr True"
proof -
  from assms consider "within_range v spec" | "in_enumeration v spec"
    | "spec = PStr ''HH:MM''" "is_hhmm v"
    by (auto simp: satisfies_declared_def)
  then show ?thesis
  proof cases
    case 1
    then obtain min_v max_v where spec: "spec = PList [min_v, max_v]"
      by (cases "(v, spec)" rule: within_range.cases) auto
    with 1 show ?thesis
      by (auto simp: outside_range_def split: option.splits)
  next
    case 2
    then obtain es where spec: "spec = PList es" by (cases spec) auto
    with 2 obtain s rest where es: "es = PStr s # rest"
      by (cases es; cases "hd es") auto
    from 2 spec have "v \<in> set es" by simp
    moreover from 2 spec have "list_all is_str es" by simp
    ultimately obtain t where "v = PStr t" "PStr t \<in> set es"
      by (metis is_str.elims(2) list_all_iff)
    then have "\<exists>e \<in> set es. py_eq e v" by (auto simp: py_eq_PStr)
    with spec es show ?thesis by auto
  next
    case 3
    then obtain s where "v = PStr s" "two_digit_colon_two_digit s" by (cases v) auto
    with 3 show ?thesis by (simp add: two_digit_re_match)
  qed
qed

section \<open>Policy Validator\<close>
text \<open>
  Claim C1, as amended. For a device list with unique ids whose capability dicts hold a list
  under \<^verbatim>\<open>functions\<close> and a dict under \<^verbatim>\<open>parameters\<close>, and an action none of whose parameter
  values is a string ending in a newline, \<^verbatim>\<open>is_action_safe\<close> returns True if and only if the
  device id is in the list, it contains no blacklisted substring, the capability dict is
  non-empty, the command is in the function list, and every supplied parameter whose declared
  spec has a checked shape satisfies it: a numeric value within the inclusive range for a
  two-element list that starts with a number, membership for a list that starts with a
  string, two digits, a colon and two digits for \<^verbatim>\<open>"HH:MM"\<close>. A declared parameter whose spec
  has any other shape is not checked.
\<close>

theorem is_action_safe_iff_checked:
  assumes ids: "distinct (map dev_id devs)"
    and wf: "\<forall>d \<in> set devs. caps_wellformed d"
    and nl: "\<forall>(p, v) \<in> set (params act). \<not> ends_with_newline v"
  shows "fst (is_action_safe act devs) = Inr True \<longleftrightarrow>
         safe_by_spec satisfies_checked act devs"
proof -
  have "safe_by_spec (\<lambda>v spec. fst (check_spec [] [] v spec) = Inr True) act devs =
        safe_by_spec satisfies_checked act devs"
  proof (rule safe_by_spec_cong)
    fix p v spec
    assume "(p, v) \<in> set (params act)"
    with nl have "\<not> ends_with_newline v" by auto
    then show "(fst (check_spec [] [] v spec) = Inr True) = satisfies_checked v spec"
      by (rule check_spec_ok_iff)
  qed
  with is_action_safe_verdict[OF ids wf] show ?thesis by simp
qed

theorem is_action_safe_iff_checked_witness:
  "fst (is_action_safe schedule_ac [smart_light_1, smart_ac_1]) = Inr True \<and>
   safe_by_spec satisfies_checked schedule_ac [smart_light_1, smart_ac_1]"
proof -
  have ids: "distinct (map dev_id [smart_light_1, smart_ac_1])"
    by (simp add: smart_light_1_def smart_ac_1_def)
  have wf: "\<forall>d \<in> set [smart_light_1, smart_ac_1]. caps_wellformed d"
    by (simp add: caps_wellformed_def smart_light_1_def smart_ac_1_def)
  have nl: "\<forall>(p, v) \<in> set (params schedule_ac). \<not> ends_with_newline v"
    by (simp add: schedule_ac_def)
  have run: "fst (is_action_safe schedule_ac [smart_light_1, smart_ac_1]) = Inr True"
    by (simp add: is_action_safe_def dev_map_def schedule_ac_def smart_ac_1_def
        smart_light_1_def SAFE_DEVICE_BLACKLIST_def dict_get_def check_param_def is_digit_def
        outside_range_def)
  from is_action_safe_iff_checked[OF ids wf nl] run show ?thesis by blast
qed

text \<open>
  Claim C1 as stated fails: the parameter \<^verbatim>\<open>brightness\<close> is declared with the spec
  \<^verbatim>\<open>[0, 50, 100]\<close>, the action supplies 1000, which satisfies none of the three constraints,
  and the validator returns True.
\<close>

theorem unchecked_spec_counterexample:
  "fst (is_action_safe overdrive_light [stepped_light]) = Inr True \<and>
   \<not> safe_by_spec satisfies_declared overdrive_light [stepped_light]"
  by (simp add: is_action_safe_def dev_map_def overdrive_light_def stepped_light_def
      SAFE_DEVICE_BLACKLIST_def dict_get_def check_param_def safe_by_spec_def
      satisfies_declared_def declared_spec_def)

text \<open>
  The other direction of claim C1 holds as stated: an action that meets the conditions, each
  declared parameter satisfying one of the three constraints, is accepted.
\<close>

lemma declared_conditions_suffice:
  assumes "distinct (map dev_id devs)" and "\<forall>d \<in> set devs. caps_wellformed d"
    and "safe_by_spec satisfies_declared act devs"
  shows "fst (is_action_safe act devs) = Inr True"
  unfolding is_action_safe_verdict[OF assms(1,2)]
  using safe_by_spec_mono[OF declared_constraint_accepted assms(3)] .

text \<open>
  The time pattern also accepts a value with one trailing newline: \<^verbatim>\<open>$\<close> matches before it.
\<close>

lemma hhmm_accepts_trailing_newline:
  "fst (is_action_safe schedule_ac_newline [smart_light_1, smart_ac_1]) = Inr True"
  by (simp add: is_action_safe_def dev_map_def schedule_ac_newline_def smart_ac_1_def
      smart_light_1_def SAFE_DEVICE_BLACKLIST_def dict_get_def check_param_def is_digit_def)

text \<open>
  Claim C2. An action whose device id contains a blacklisted substring and names a device of
  the list is unsafe, whatever the capabilities, the command and the parameters are.
\<close>

theorem blacklisted_device_denied:
  assumes "bad \<in> SAFE_DEVICE_BLACKLIST"
    and "device_id act = pre @ bad @ post"
    and "device_id act \<in> dev_id ` set devs"
  shows "fst (is_action_safe act devs) = Inr False"
proof -
  from assms(3) obtain dev where "map_of (dev_map devs) (device_id act) = Some dev"
    using dev_map_None by (cases "map_of (dev_map devs) (device_id act)") auto
  moreover have "\<exists>bad \<in> SAFE_DEVICE_BLACKLIST. str_contains (device_id act) bad"
    using assms(1,2) str_contains_iff by blast
  ultimately show ?thesis by (simp add: is_action_safe_def)
qed

theorem blacklisted_device_denied_witness:
  "''security_camera'' \<in> SAFE_DEVICE_BLACKLIST \<and>
   device_id camera_off = ''porch_'' @ ''security_camera'' @ [] \<and>
   device_id camera_off \<in> dev_id ` set [smart_light_1, camera] \<and>
   fst (is_action_safe camera_off [smart_light_1, camera]) = Inr False"
proof -
  have a: "''security_camera'' \<in> SAFE_DEVICE_BLACKLIST" by (simp add: SAFE_DEVICE_BLACKLIST_def)
  have b: "device_id camera_off = ''porch_'' @ ''security_camera'' @ []"
    by (simp add: camera_off_def)
  have c: "device_id camera_off \<in> dev_id ` set [smart_light_1, camera]"
    by (simp add: camera_off_def camera_def)
  from blacklisted_device_denied[OF a b c] a b c show ?thesis by blast
qed

text \<open>
  Claim C10. When the declared spec of a parameter is a list whose first element is a number
  and whose length is not 2, the validator logs the warning about the invalid format and goes
  on to the next parameter: the verdict on the action is the same with any value supplied
  for that parameter as without it.
\<close>

theorem malformed_numeric_spec_never_rejects:
  assumes num: "is_numeric s0" and len: "length (s0 # rest) \<noteq> 2"
    and decl: "\<forall>d \<in> set devs. dev_id d = device_id act \<longrightarrow>
      (\<exists>caps. capabilities d = Some caps \<and> declared_spec caps p = Some (PList (s0 # rest)))"
  shows "check_spec (device_id act) p v (PList (s0 # rest)) =
           (Inr True,
            [Log WARNING
               ''SafetyCheck: Numeric param spec '%s' has invalid format (not [min, max]).''
               [p]]) \<and>
         fst (is_action_safe (act\<lparr>params := before @ (p, v) # after\<rparr>) devs) =
         fst (is_action_safe (act\<lparr>params := before @ after\<rparr>) devs)"
proof
  from num obtain lo where lo: "as_num s0 = Some lo" by (auto simp: is_numeric_def)
  with len show spec: "check_spec (device_id act) p v (PList (s0 # rest)) =
           (Inr True,
            [Log WARNING
               ''SafetyCheck: Numeric param spec '%s' has invalid format (not [min, max]).''
               [p]])"
    by simp
  show "fst (is_action_safe (act\<lparr>params := before @ (p, v) # after\<rparr>) devs) =
        fst (is_action_safe (act\<lparr>params := before @ after\<rparr>) devs)"
  proof (cases "map_of (dev_map devs) (device_id act)")
    case None
    then show ?thesis by (simp add: is_action_safe_def)
  next
    case (Some dev)
    with decl dev_map_SomeD obtain caps where
      caps: "capabilities dev = Some caps" "declared_spec caps p = Some (PList (s0 # rest))"
      by blast
    then obtain specs where specs: "map_of caps ''parameters'' = Some (PDict specs)"
      "map_of specs p = Some (PList (s0 # rest))"
      by (auto simp: declared_spec_def split: option.splits pyval.splits)
    then have "p \<in> set (map fst specs)"
      by (metis map_of_eq_None_iff option.distinct(1) set_map)
    with specs spec have "fst (check_param (device_id act) (PDict specs) p v) = Inr True"
      by (simp add: check_param_def)
    from check_params_skip[OF this] have
      "fst (check_params (device_id act) (PDict specs) (before @ (p, v) # after)) =
       fst (check_params (device_id act) (PDict specs) (before @ after))" .
    moreover have "dict_get caps ''parameters'' (PDict []) = PDict specs"
      using specs by (simp add: dict_get_def)
    ultimately show ?thesis
      using Some caps
      by (simp add: is_action_safe_def split: sum.splits bool.splits)
  qed
qed

theorem malformed_numeric_spec_never_rejects_witness:
  "is_numeric (PInt 0) \<and> length [PInt 0, PInt 50, PInt 100] \<noteq> 2 \<and>
   fst (is_action_safe
          (overdrive_light_more\<lparr>params := [(''transition'', PInt 2)] @
             (''brightness'', PStr ''max'') # []\<rparr>) [stepped_light]) = Inr True"
proof -
  have a: "is_numeric (PInt 0)" by (simp add: is_numeric_def)
  have b: "length (PInt 0 # [PInt 50, PInt 100]) \<noteq> 2" by simp
  have c: "\<forall>d \<in> set [stepped_light]. dev_id d = device_id overdrive_light_more \<longrightarrow>
      (\<exists>caps. capabilities d = Some caps \<and>
         declared_spec caps ''brightness'' = Some (PList (PInt 0 # [PInt 50, PInt 100])))"
    by (simp add: stepped_light_def declared_spec_def)
  have d: "fst (is_action_safe
          (overdrive_light_more\<lparr>params := [(''transition'', PInt 2)] @ []\<rparr>) [stepped_light])
        = Inr True"
    by (simp add: is_action_safe_def dev_map_def overdrive_light_more_def stepped_light_def
        SAFE_DEVICE_BLACKLIST_def dict_get_def check_param_def)
  from malformed_numeric_spec_never_rejects[OF a b c,
      of "PStr ''max''" "[(''transition'', PInt 2)]" "[]"] a b d
  show ?thesis by simp
qed

section \<open>Proactivity Throttle\<close>

lemma ProactivityBudget_fresh:
  "ProactivityBudget m = Inr b \<Longrightarrow>
   last_suggestion_time b = None \<and> cooldown_threshold b = m * 60000000"
  by (auto simp: ProactivityBudget_def timedelta_minutes_def Let_def split: if_splits)

text \<open>
  Claim C3. With no prior allowed suggestion, the first call of \<^verbatim>\<open>allow\<close>, at time \<open>t1\<close>,
  returns True and records \<open>t1\<close>; a second call less than the cooldown after \<open>t1\<close> returns
  False and leaves the state as it was; a call at least the cooldown after \<open>t1\<close> returns True
  and records its own time.
\<close>

theorem allow_first_then_cooldown:
  assumes "last_suggestion_time b0 = None"
    and "t2 - t1 < cooldown_threshold b0"
    and "t3 - t1 \<ge> cooldown_threshold b0"
  shows "allow t1 b0 = (True, b0\<lparr>last_suggestion_time := Some t1\<rparr>) \<and>
         allow t2 (b0\<lparr>last_suggestion_time := Some t1\<rparr>) =
           (False, b0\<lparr>last_suggestion_time := Some t1\<rparr>) \<and>
         allow t3 (b0\<lparr>last_suggestion_time := Some t1\<rparr>) =
           (True, b0\<lparr>last_suggestion_time := Some t3\<rparr>)"
  using assms by (simp add: allow_def)

theorem allow_first_then_cooldown_witness:
  "ProactivityBudget 10 = Inr ten_minutes \<and>
   allow 5000000 ten_minutes = (True, ten_minutes\<lparr>last_suggestion_time := Some 5000000\<rparr>) \<and>
   allow 65000000 (ten_minutes\<lparr>last_suggestion_time := Some 5000000\<rparr>) =
     (False, ten_minutes\<lparr>last_suggestion_time := Some 5000000\<rparr>) \<and>
   allow 605000000 (ten_minutes\<lparr>last_suggestion_time := Some 5000000\<rparr>) =
     (True, ten_minutes\<lparr>last_suggestion_time := Some 605000000\<rparr>)"
proof -
  have init: "ProactivityBudget 10 = Inr ten_minutes"
    by (simp add: ProactivityBudget_def timedelta_minutes_def ten_minutes_def)
  have a: "last_suggestion_time ten_minutes = None" by (simp add: ten_minutes_def)
  have b: "65000000 - 5000000 < cooldown_threshold ten_minutes" by (simp add: ten_minutes_def)
  have c: "605000000 - 5000000 \<ge> cooldown_threshold ten_minutes" by (simp add: ten_minutes_def)
  from allow_first_then_cooldown[OF a b c] init show ?thesis by blast
qed

section \<open>Rule Engine\<close>

lemma lit_light_ids_code:
  "lit_light_ids ctx =
   set (map dev_id (filter (\<lambda>d. dev_on d \<and> str_contains (dev_id d) ''light'') (devices ctx)))"
  by (auto simp: lit_light_ids_def)

lemma sorted_list_of_distinct:
  "distinct (xs :: string list) \<Longrightarrow> sorted_list_of_set (set xs) = sort xs"
  by (simp add: sorted_list_of_set_sort_remdups distinct_remdups_id)

lemma turn_off_candidates_vacant:
  assumes "environment ctx = Some env" "occupancy env = Some Vacant"
    and "filter (\<lambda>d. dev_on d \<and> str_contains (dev_id d) ''light'') (devices ctx) \<noteq> []"
  shows "turn_off_candidates ctx =
     [\<lparr>action_type = ''turn_off_room_lights'',
       target_devices =
         map dev_id (filter (\<lambda>d. dev_on d \<and> str_contains (dev_id d) ''light'') (devices ctx)),
       candidate_reason = ''room appears empty and lights are on''\<rparr>]"
  using assms
  by (simp add: turn_off_candidates_def candidates_from_context_def Let_def
      del: str_contains.simps)

text \<open>
  Claim C4, as amended. For a vacant room with at least one device that is on and has
  \<^verbatim>\<open>light\<close> in its id, the output holds exactly one \<^verbatim>\<open>turn_off_room_lights\<close> candidate; its
  targets are the ids of those devices in the order of the device list, not sorted: as a
  set they are the matching ids, and when the device ids are unique, sorting the targets
  gives the sorted set.
\<close>

theorem vacant_lights_candidate:
  assumes "environment ctx = Some env" and "occupancy env = Some Vacant"
    and "lit_light_ids ctx \<noteq> {}"
  shows "\<exists>c. turn_off_candidates ctx = [c] \<and>
           subseq (target_devices c) (map dev_id (devices ctx)) \<and>
           set (target_devices c) = lit_light_ids ctx \<and>
           (distinct (map dev_id (devices ctx)) \<longrightarrow>
              sort (target_devices c) = sorted_list_of_set (lit_light_ids ctx))"
proof -
  let ?lit = "filter (\<lambda>d. dev_on d \<and> str_contains (dev_id d) ''light'') (devices ctx)"
  let ?c = "\<lparr>action_type = ''turn_off_room_lights'', target_devices = map dev_id ?lit,
       candidate_reason = ''room appears empty and lights are on''\<rparr>"
  have ne: "?lit \<noteq> []"
  proof
    assume "?lit = []"
    then have "lit_light_ids ctx = {}" by (simp add: lit_light_ids_code)
    with assms(3) show False by simp
  qed
  have one: "turn_off_candidates ctx = [?c]"
    by (rule turn_off_candidates_vacant[OF assms(1,2) ne])
  have sub: "subseq (target_devices ?c) (map dev_id (devices ctx))"
    by (simp add: subseq_map)
  have st: "set (target_devices ?c) = lit_light_ids ctx"
    by (simp add: lit_light_ids_code)
  have srt: "sort (target_devices ?c) = sorted_list_of_set (lit_light_ids ctx)"
    if "distinct (map dev_id (devices ctx))"
  proof -
    from that have "distinct (map dev_id ?lit)" by (simp add: distinct_map_filter)
    then have "sorted_list_of_set (set (map dev_id ?lit)) = sort (map dev_id ?lit)"
      by (rule sorted_list_of_distinct)
    then show ?thesis unfolding lit_light_ids_code by simp
  qed
  from one sub st srt show ?thesis by blast
qed

theorem vacant_lights_candidate_witness:
  "\<exists>c. turn_off_candidates two_lights = [c] \<and>
       subseq (target_devices c) (map dev_id (devices two_lights)) \<and>
       set (target_devices c) = lit_light_ids two_lights \<and>
       sort (target_devices c) = sorted_list_of_set (lit_light_ids two_lights)"
proof -
  have env: "environment two_lights =
      Some \<lparr>room_temp = None, air_quality = None, occupancy = Some Vacant,
            occupancy_confidence = Some 1\<rparr>"
    by (simp add: two_lights_def vacant_room_def)
  have vac: "occupancy \<lparr>room_temp = None, air_quality = None, occupancy = Some Vacant,
            occupancy_confidence = Some 1\<rparr> = Some Vacant" by simp
  have ne: "lit_light_ids two_lights \<noteq> {}"
    by (simp add: lit_light_ids_code two_lights_def vacant_room_def bare_device_def)
  have dist: "distinct (map dev_id (devices two_lights))"
    by (simp add: two_lights_def vacant_room_def bare_device_def)
  from vacant_lights_candidate[OF env vac ne] dist show ?thesis by blast
qed

text \<open>
  Claim C4 as stated fails: with \<^verbatim>\<open>light_b\<close> before \<^verbatim>\<open>light_a\<close> in the device list, the
  targets are in that order and the sorted set is in the other.
\<close>

theorem targets_not_sorted_counterexample:
  "map target_devices (turn_off_candidates two_lights) = [[''light_b'', ''light_a'']] \<and>
   sorted_list_of_set (lit_light_ids two_lights) = [''light_a'', ''light_b''] \<and>
   map target_devices (turn_off_candidates two_lights) \<noteq>
     [sorted_list_of_set (lit_light_ids two_lights)]"
  by (simp add: turn_off_candidates_def candidates_from_context_def lit_light_ids_code
      two_lights_def vacant_room_def bare_device_def)

section \<open>Decision Orchestrator\<close>

lemma proposed_on_pass2_failure:
  assumes "memory orch = Some mem"
    and "\<And>summary ctx. pass2_chain (client orch) summary ctx = Raised e"
  shows "proposed_suggestion orch w ctx0 =
         Inr (enrich_context_with_capabilities orch ctx0, llm_parse_failed)"
  using assms
  by (simp add: proposed_suggestion_def pass2_structured_def SuggestionSchema_def
      llm_parse_failed_def Let_def)

text \<open>
  Claim C5, what the code does. When the pass-2 chain raises, whether the parser's exception
  or a failure of the call, \<^verbatim>\<open>pass2_structured\<close> has already turned it into a dict, so neither
  handler of \<^verbatim>\<open>process_context\<close> runs: the suggestion has the reason \<^verbatim>\<open>llm_parse_failed\<close> in
  both cases and the schema's default confidence 0.5, not 0.0.
\<close>

theorem pass2_failure_gives_schema_defaults:
  assumes "memory orch = Some mem"
    and "\<And>summary ctx. pass2_chain (client orch) summary ctx = Raised e"
  shows "process_context orch w ctx0 = (Inr llm_parse_failed, orch) \<and>
         confidence llm_parse_failed = Some (1 / 2) \<and>
         reason llm_parse_failed = Some ''llm_parse_failed''"
  using proposed_on_pass2_failure[OF assms]
  by (simp add: process_context_def safety_checked_def budget_checked_def llm_parse_failed_def)

theorem pass2_failure_gives_schema_defaults_witness:
  "process_context (demo_orchestrator unreachable_client) quiet_world demo_context =
     (Inr llm_parse_failed, demo_orchestrator unreachable_client)"
proof -
  have m: "memory (demo_orchestrator unreachable_client) = Some \<lparr>documents = []\<rparr>"
    by (simp add: demo_orchestrator_def)
  have p: "\<And>summary ctx.
      pass2_chain (client (demo_orchestrator unreachable_client)) summary ctx = Raised CallFailure"
    by (simp add: demo_orchestrator_def unreachable_client_def)
  from pass2_failure_gives_schema_defaults[OF m p] show ?thesis by blast
qed

lemma demo_enriched:
  "devices (enrich_context_with_capabilities (demo_orchestrator llm) demo_context) =
   [smart_light_1\<lparr>dev_name := None, dev_params := []\<rparr>, smart_ac_1\<lparr>dev_name := None\<rparr>]"
  by (simp add: enrich_context_with_capabilities_def demo_orchestrator_def demo_context_def
      vacant_room_def bare_device_def demo_capabilities_def smart_light_1_def smart_ac_1_def)

lemma hot_ac_proposed:
  "proposed_suggestion (demo_orchestrator hot_ac_client) quiet_world demo_context =
   Inr (enrich_context_with_capabilities (demo_orchestrator hot_ac_client) demo_context,
        hot_ac_suggestion)"
  by (simp add: proposed_suggestion_def pass2_structured_def SuggestionSchema_def model_dump_def
      Let_def demo_orchestrator_def hot_ac_client_def hot_ac_suggestion_def)

lemma hot_ac_unsafe:
  "fst (is_action_safe hot_ac
      (devices (enrich_context_with_capabilities (demo_orchestrator hot_ac_client) demo_context)))
   = Inr False"
  unfolding demo_enriched
  by (simp add: is_action_safe_def dev_map_def hot_ac_def smart_ac_1_def smart_light_1_def
      SAFE_DEVICE_BLACKLIST_def dict_get_def check_param_def outside_range_def)

text \<open>
  Claim C6. When the validator rejects the action of the suggestion, \<^verbatim>\<open>process_context\<close>
  returns the suggestion with \<^verbatim>\<open>should_suggest\<close> false and the reason overwritten; the action,
  the suggestion text and the confidence are those of the suggestion of pass 2.
\<close>

theorem safety_rejection_frame:
  assumes "proposed_suggestion orch w ctx0 = Inr (ctx, s)"
    and "action s = Some a"
    and "fst (is_action_safe a (devices ctx)) = Inr False"
  shows "\<exists>s'. process_context orch w ctx0 = (Inr s', orch) \<and>
           should_suggest s' = False \<and>
           reason s' = Some ''Action failed safety check.'' \<and>
           action s' = action s \<and>
           suggestion_text s' = suggestion_text s \<and>
           confidence s' = confidence s"
  using assms
  by (simp add: process_context_def safety_checked_def budget_checked_def)

theorem safety_rejection_frame_witness:
  "\<exists>s'. process_context (demo_orchestrator hot_ac_client) quiet_world demo_context =
           (Inr s', demo_orchestrator hot_ac_client) \<and>
        should_suggest s' = False \<and>
        reason s' = Some ''Action failed safety check.'' \<and>
        action s' = Some hot_ac \<and>
        suggestion_text s' = Some ''Warm the room up'' \<and>
        confidence s' = Some (9 / 10)"
proof -
  have a: "action hot_ac_suggestion = Some hot_ac" by (simp add: hot_ac_suggestion_def)
  from safety_rejection_frame[OF hot_ac_proposed a hot_ac_unsafe]
  show ?thesis by (simp add: hot_ac_suggestion_def)
qed

lemma proposed_ignores_budget_and_clock:
  "proposed_suggestion (orch\<lparr>budget := b\<rparr>) (w\<lparr>utcnow := now\<rparr>) ctx0 =
   (case proposed_suggestion orch w ctx0 of Inl e \<Rightarrow> Inl e | Inr (ctx, s) \<Rightarrow> Inr (ctx, s))"
  by (simp add: proposed_suggestion_def enrich_context_with_capabilities_def
      get_relevant_info_def Let_def split: option.splits)

text \<open>
  Claim C7. When the suggestion is already denied after the safety check, the result of
  \<^verbatim>\<open>process_context\<close> is that suggestion whatever the state of the throttle and the clock are,
  and the throttle is returned as it was: it is neither read nor updated.
\<close>

theorem denied_suggestion_skips_budget:
  assumes "proposed_suggestion orch w ctx0 = Inr (ctx, s)"
    and "safety_checked ctx s = Inr s'"
    and "\<not> should_suggest s'"
  shows "\<forall>b now. process_context (orch\<lparr>budget := b\<rparr>) (w\<lparr>utcnow := now\<rparr>) ctx0 =
                    (Inr s', orch\<lparr>budget := b\<rparr>)"
proof (intro allI)
  fix b now
  have "proposed_suggestion (orch\<lparr>budget := b\<rparr>) (w\<lparr>utcnow := now\<rparr>) ctx0 = Inr (ctx, s)"
    using assms(1) by (simp add: proposed_ignores_budget_and_clock)
  with assms(2,3) show "process_context (orch\<lparr>budget := b\<rparr>) (w\<lparr>utcnow := now\<rparr>) ctx0 =
                    (Inr s', orch\<lparr>budget := b\<rparr>)"
    by (simp add: process_context_def budget_checked_def)
qed

theorem denied_suggestion_skips_budget_witness:
  "process_context ((demo_orchestrator hot_ac_client)\<lparr>budget := used_budget\<rparr>)
     (quiet_world\<lparr>utcnow := 777000000\<rparr>) demo_context =
   (Inr hot_ac_denied, (demo_orchestrator hot_ac_client)\<lparr>budget := used_budget\<rparr>)"
proof -
  have sc: "safety_checked
      (enrich_context_with_capabilities (demo_orchestrator hot_ac_client) demo_context)
      hot_ac_suggestion = Inr hot_ac_denied"
    using hot_ac_unsafe
    by (simp add: safety_checked_def hot_ac_suggestion_def hot_ac_denied_def)
  have no: "\<not> should_suggest hot_ac_denied"
    by (simp add: hot_ac_denied_def)
  from denied_suggestion_skips_budget[OF hot_ac_proposed sc no] show ?thesis by blast
qed

text \<open>
  When the suggestion is still to be made after the safety check, the throttle decides.
\<close>

lemma budget_consulted_when_still_suggested:
  assumes "proposed_suggestion orch w ctx0 = Inr (ctx, s)"
    and "safety_checked ctx s = Inr s'"
    and "should_suggest s'"
  shows "process_context orch w ctx0 =
         (Inr (if fst (allow (utcnow w) (budget orch)) then s'
               else s'\<lparr>should_suggest := False, reason := Some ''Proactivity budget exhausted.''\<rparr>),
          orch\<lparr>budget := snd (allow (utcnow w) (budget orch))\<rparr>)"
  using assms
  by (simp add: process_context_def budget_checked_def split: prod.splits)

section \<open>Memory store\<close>
text \<open>
  Claim C8, as amended. A failure of the store while a document is added is logged and then
  raised again: \<^verbatim>\<open>add_document\<close> returns no id and stores nothing, and
  \<^verbatim>\<open>store_user_confirmation\<close>, whenever it writes, passes the exception on to its caller.
\<close>

theorem store_failure_is_reraised:
  assumes nodup: "\<forall>text. \<not> is_duplicate w mem text"
    and fails: "\<forall>text. add_error w text = Some e"
  shows "(\<forall>text m. m \<noteq> [] \<longrightarrow>
            add_document w mem text (Some m) =
              (Inl (StoreError e), mem, [Log ERROR ''Chroma add_document error: %s'' [e]])) \<and>
         (\<forall>(orch :: think_orchestrator) s ctx accepted.
            memory orch = Some mem \<and> (accepted \<longrightarrow> action s \<noteq> None) \<longrightarrow>
            store_user_confirmation orch w s ctx accepted =
              (Inl (StoreError e), orch, [Log ERROR ''Chroma add_document error: %s'' [e]]))"
proof (intro conjI allI impI)
  fix t and m :: "(string \<times> pyval) list"
  assume "m \<noteq> []"
  with nodup fails show "add_document w mem t (Some m) =
      (Inl (StoreError e), mem, [Log ERROR ''Chroma add_document error: %s'' [e]])"
    by (simp add: add_document_def safe_meta_of_def)
next
  fix orch :: think_orchestrator and s :: suggestion and ctx :: context_packet and accepted
  assume h: "memory orch = Some mem \<and> (accepted \<longrightarrow> action s \<noteq> None)"
  have add: "\<And>text m. m \<noteq> [] \<Longrightarrow> add_document w mem text (Some m) =
      (Inl (StoreError e), mem, [Log ERROR ''Chroma add_document error: %s'' [e]])"
    using nodup fails by (simp add: add_document_def safe_meta_of_def)
  have same: "orch\<lparr>memory := Some mem\<rparr> = orch" using h by simp
  show "store_user_confirmation orch w s ctx accepted =
      (Inl (StoreError e), orch, [Log ERROR ''Chroma add_document error: %s'' [e]])"
  proof (cases accepted)
    case True
    with h obtain a where "action s = Some a" by auto
    with True h same show ?thesis
      by (simp add: store_user_confirmation_def Let_def add)
  next
    case False
    with h same show ?thesis
      by (simp add: store_user_confirmation_def Let_def add)
  qed
qed

theorem store_failure_is_reraised_witness:
  "add_document disk_full_world \<lparr>documents = []\<rparr> ''User likes tea.'' (Some [(''tag'', PStr ''fact'')]) =
     (Inl (StoreError ''disk full''), \<lparr>documents = []\<rparr>,
      [Log ERROR ''Chroma add_document error: %s'' [''disk full'']]) \<and>
   store_user_confirmation (demo_orchestrator hot_ac_client) disk_full_world rejected_suggestion
       demo_context False =
     (Inl (StoreError ''disk full''), demo_orchestrator hot_ac_client,
      [Log ERROR ''Chroma add_document error: %s'' [''disk full'']])"
proof -
  have nodup: "\<forall>text. \<not> is_duplicate disk_full_world \<lparr>documents = []\<rparr> text"
    by (simp add: is_duplicate_def)
  have fails: "\<forall>text. add_error disk_full_world text = Some ''disk full''"
    by (simp add: disk_full_world_def quiet_world_def)
  have m: "memory (demo_orchestrator hot_ac_client) = Some \<lparr>documents = []\<rparr>"
    by (simp add: demo_orchestrator_def)
  from store_failure_is_reraised[OF nodup fails] m show ?thesis by simp
qed

text \<open>
  Claim C8 as stated fails: with a store that cannot write, both functions raise.
\<close>

theorem write_failure_raised_counterexample:
  "fst (add_document disk_full_world \<lparr>documents = []\<rparr> ''User likes tea.''
          (Some [(''tag'', PStr ''fact'')])) = Inl (StoreError ''disk full'') \<and>
   fst (store_user_confirmation (demo_orchestrator hot_ac_client) disk_full_world
          rejected_suggestion demo_context False) = Inl (StoreError ''disk full'')"
  by (simp add: add_document_def safe_meta_of_def is_duplicate_def disk_full_world_def
      quiet_world_def store_user_confirmation_def demo_orchestrator_def Let_def)

text \<open>
  Claim C9. On a text that is not a duplicate, \<^verbatim>\<open>add_document\<close> raises TypeError exactly
  when the metadata is None or an empty dict, and then nothing is stored; so it returns an
  id only for a non-empty metadata dict.
\<close>

theorem add_document_without_metadata_raises:
  assumes "\<not> is_duplicate w store text"
  shows "(fst (add_document w store text metadata) = Inl TypeError \<longleftrightarrow>
            metadata = None \<or> metadata = Some []) \<and>
         (metadata = None \<or> metadata = Some [] \<longrightarrow>
            add_document w store text metadata = (Inl TypeError, store, [])) \<and>
         (\<forall>i. fst (add_document w store text metadata) = Inr i \<longrightarrow>
            (\<exists>m. metadata = Some m \<and> m \<noteq> []))"
  using assms
  by (auto simp: add_document_def safe_meta_of_def Let_def split: option.splits if_splits)

theorem add_document_without_metadata_raises_witness:
  "add_document quiet_world \<lparr>documents = []\<rparr> ''User likes tea.'' None =
     (Inl TypeError, \<lparr>documents = []\<rparr>, [])"
proof -
  have nodup: "\<not> is_duplicate quiet_world \<lparr>documents = []\<rparr> ''User likes tea.''"
    by (simp add: is_duplicate_def)
  from add_document_without_metadata_raises[OF nodup, of None] show ?thesis by simp
qed

end
